theory Spec2Isabelle
  imports Complex_Main "HOL-Library.Word" "HOL-Library.Signed_Division"
begin

section \<open>Self-play controller and batch slot of ELF: a shallow embedding\<close>

text \<open>
  The development follows \<^verbatim>\<open>src_cpp/elfgames/go/train/ctrl_selfplay.h\<close> and
  \<^verbatim>\<open>src_cpp/elf/distri/feature.h\<close>.

  Conventions of the embedding.
  \<^item> \<^verbatim>\<open>size_t\<close> is \<open>64 word\<close>; the size of a container is the length of a list.
  \<^item> \<^verbatim>\<open>float\<close> is \<open>real\<close>: comparisons, \<^verbatim>\<open>std::min\<close> and \<^verbatim>\<open>std::max\<close> are the same on both,
    sums and products are the exact ones (no rounding, no NaN).
  \<^item> \<^verbatim>\<open>int\<close> and \<^verbatim>\<open>int64_t\<close> are \<open>int\<close>; signed overflow is undefined in C++ and is not modelled.
  \<^item> \<^verbatim>\<open>assert\<close> that fails, and a library call outside its precondition, is an error value.
  \<^item> Output to \<^verbatim>\<open>std::cout\<close> is left out; the state that decides when to print is kept.
\<close>

datatype error =
    AssertionFailed      \<comment> \<open>an \<^verbatim>\<open>assert\<close> of the source does not hold\<close>
  | EmptyDeque           \<comment> \<open>\<^verbatim>\<open>front()\<close> / \<^verbatim>\<open>pop_front()\<close> on an empty \<^verbatim>\<open>std::deque\<close>\<close>
  | OutOfRange           \<comment> \<open>\<^verbatim>\<open>operator[]\<close> of a \<^verbatim>\<open>std::vector\<close> past its end\<close>
  | Blocked              \<comment> \<open>\<^verbatim>\<open>pop\<close> on a queue that stays empty: the caller never returns\<close>
  | ParseError           \<comment> \<open>\<^verbatim>\<open>json::parse\<close> or \<^verbatim>\<open>SMemFromJson\<close> throws on a message\<close>

type_synonym size_t = "64 word"

subsection \<open>Messages\<close>

text \<open>
  \<^verbatim>\<open>Request\<close> and \<^verbatim>\<open>Result\<close> are declared outside the files at hand; the records hold the
  members that the code reads and writes. \<open>is_selfplay\<close> is the value of
  \<^verbatim>\<open>request.vers.is_selfplay()\<close>.
\<close>

record Request =
  black_ver :: int
  white_ver :: int
  is_selfplay :: bool
  resign_thres :: real
  never_resign_prob :: real
  async :: bool

record Result =
  reward :: real
  never_resign :: bool
  "values" :: "real list"
  num_move :: int

subsection \<open>ResignThresholdCalculator\<close>

text \<open>The counters \<^verbatim>\<open>fp\<close>, \<^verbatim>\<open>n\<close> and \<^verbatim>\<open>blackWin\<close> of \<^verbatim>\<open>NRStats\<close> carry the prefix \<open>stat_\<close>,
  since \<^verbatim>\<open>NRItem\<close> has members of the same names.\<close>

record NRStats =
  stat_fp :: size_t
  stat_n :: size_t
  stat_blackWin :: size_t
  total_n :: size_t
  totalBlackWin :: size_t

definition NRStats_init :: NRStats where
  "NRStats_init = \<lparr>stat_fp = 0, stat_n = 0, stat_blackWin = 0, total_n = 0, totalBlackWin = 0\<rparr>"

definition NRStats_feed :: "real \<Rightarrow> NRStats \<Rightarrow> NRStats" where
  "NRStats_feed v s =
     (let s1 = s\<lparr>total_n := total_n s + 1\<rparr>
      in if v > 0 then s1\<lparr>totalBlackWin := totalBlackWin s1 + 1\<rparr> else s1)"

record NRItem =
  minValue :: real
  fp :: bool
  blackWin :: bool

text \<open>The loop of the constructor of \<^verbatim>\<open>NRItem\<close>: \<open>i\<close> runs over every second index of
  \<^verbatim>\<open>result.values\<close>, \<open>m\<close> is \<^verbatim>\<open>minValue\<close>.\<close>

function NRItem_loop :: "bool \<Rightarrow> real list \<Rightarrow> nat \<Rightarrow> real \<Rightarrow> real" where
  "NRItem_loop bw vs i m =
     (if i < length vs
      then NRItem_loop bw vs (i + 2) (min m (if bw then 1 + vs ! i else 1 - vs ! i))
      else m)"
  by pat_completeness auto
termination
  by (relation "measure (\<lambda>(bw, vs, i, m). length vs - i)") auto

declare NRItem_loop.simps [simp del]

definition NRItem_ctor :: "Request \<Rightarrow> Result \<Rightarrow> NRItem" where
  "NRItem_ctor request result =
     (let bw = (reward result > 0);
          mv = NRItem_loop bw (values result) (if bw then 0 else 1) 2
      in \<lparr>minValue = mv, fp = (resign_thres request > mv), blackWin = bw\<rparr>)"

text \<open>\<^verbatim>\<open>stats.n += delta\<close> adds an \<^verbatim>\<open>int\<close> to a \<^verbatim>\<open>size_t\<close>: the \<^verbatim>\<open>int\<close> is converted, and
  \<open>-1\<close> becomes \<open>2 ^ 64 - 1\<close>.\<close>

definition changeStat :: "NRItem \<Rightarrow> int \<Rightarrow> NRStats \<Rightarrow> NRStats" where
  "changeStat it delta s =
     (let s1 = s\<lparr>stat_n := stat_n s + word_of_int delta\<rparr>;
          s2 = (if fp it then s1\<lparr>stat_fp := stat_fp s1 + word_of_int delta\<rparr> else s1)
      in if blackWin it then s2\<lparr>stat_blackWin := stat_blackWin s2 + word_of_int delta\<rparr> else s2)"

record Calc =
  histSize :: size_t
  falsePositiveTarget :: real
  curThreshold :: real
  minThreshold :: real
  maxThreshold :: real
  numGamesFed :: size_t
  numGamesFedBlackWin :: size_t
  winnerMinValues :: "NRItem list"
  nr_stats :: NRStats

definition ResignThresholdCalculator :: "size_t \<Rightarrow> real \<Rightarrow> real \<Rightarrow> real \<Rightarrow> real \<Rightarrow> error + Calc" where
  "ResignThresholdCalculator hs fpt initialThreshold minT maxT =
     (if \<not> hs > 0 then Inl AssertionFailed
      else if \<not> (fpt > 1 / 1000000 \<and> fpt < 1 - 1 / 1000000) then Inl AssertionFailed
      else if \<not> (0 \<le> minT \<and> minT \<le> maxT \<and> maxT \<le> 2) then Inl AssertionFailed
      else Inr \<lparr>histSize = hs, falsePositiveTarget = fpt, curThreshold = initialThreshold,
                minThreshold = minT, maxThreshold = maxT, numGamesFed = 0,
                numGamesFedBlackWin = 0, winnerMinValues = [], nr_stats = NRStats_init\<rparr>)"

text \<open>The \<^verbatim>\<open>while\<close> loop of \<^verbatim>\<open>feedWinnerMinvalue\<close>: the front of the deque is the head of the list.\<close>

fun evict :: "size_t \<Rightarrow> NRStats \<Rightarrow> NRItem list \<Rightarrow> error + (NRStats \<times> NRItem list)" where
  "evict hs s [] = (if 0 \<ge> unat hs then Inl EmptyDeque else Inr (s, []))"
| "evict hs s (x # xs) =
     (if length (x # xs) \<ge> unat hs then evict hs (changeStat x (- 1) s) xs
      else Inr (s, x # xs))"

definition feedWinnerMinvalue :: "NRItem \<Rightarrow> Calc \<Rightarrow> error + Calc" where
  "feedWinnerMinvalue it c =
     (case evict (histSize c) (nr_stats c) (winnerMinValues c) of
        Inl e \<Rightarrow> Inl e
      | Inr (s, w) \<Rightarrow> Inr (c\<lparr>winnerMinValues := w @ [it], nr_stats := changeStat it 1 s\<rparr>))"

definition Calc_feed :: "Request \<Rightarrow> Result \<Rightarrow> Calc \<Rightarrow> error + Calc" where
  "Calc_feed request result c =
     (let c1 = c\<lparr>numGamesFed := numGamesFed c + 1\<rparr>;
          c2 = (if reward result > 0
                then c1\<lparr>numGamesFedBlackWin := numGamesFedBlackWin c1 + 1\<rparr> else c1)
      in if \<not> never_resign result then Inr c2
         else feedWinnerMinvalue (NRItem_ctor request result)
                (c2\<lparr>nr_stats := NRStats_feed (reward result) (nr_stats c2)\<rparr>))"

definition getThreshold :: "Calc \<Rightarrow> real" where
  "getThreshold c = curThreshold c"

text \<open>\<^verbatim>\<open>std::nth_element(first, first + k, last)\<close> rearranges the range so that the element
  at index \<open>k\<close> is the one that a full sort by \<^verbatim>\<open>operator<\<close> would put there. The code
  reads only \<^verbatim>\<open>minValue\<close> of that element, which the library contract fixes.\<close>

definition nth_element_minValue :: "NRItem list \<Rightarrow> nat \<Rightarrow> real" where
  "nth_element_minValue w k = sort (map minValue w) ! k"

definition position :: "Calc \<Rightarrow> nat" where
  "position c = nat \<lfloor>falsePositiveTarget c * real (length (winnerMinValues c))\<rfloor>"

definition clampThreshold :: "Calc \<Rightarrow> real \<Rightarrow> real \<Rightarrow> real" where
  "clampThreshold c maxDelta cand =
     (let oldThreshold = curThreshold c;
          t1 = min cand (oldThreshold + maxDelta);
          t2 = max t1 (oldThreshold - maxDelta);
          t3 = max t2 (minThreshold c)
      in min t3 (maxThreshold c))"

definition updateThreshold :: "real \<Rightarrow> Calc \<Rightarrow> error + (real \<times> Calc)" where
  "updateThreshold maxDelta c =
     (if position c < 2 \<or> position c + 2 \<ge> length (winnerMinValues c)
      then Inr (curThreshold c, c)
      else let cand = nth_element_minValue (winnerMinValues c) (position c)
           in if \<not> cand > - (1 / 1000000000) then Inl AssertionFailed
              else let t = clampThreshold c maxDelta cand
                   in Inr (t, c\<lparr>curThreshold := t\<rparr>))"

text \<open>A sequence of \<^verbatim>\<open>feed\<close> calls; the first error ends the run.\<close>

fun Calc_feeds :: "(Request \<times> Result) list \<Rightarrow> Calc \<Rightarrow> error + Calc" where
  "Calc_feeds [] c = Inr c"
| "Calc_feeds ((rq, rs) # xs) c =
     (case Calc_feed rq rs c of Inl e \<Rightarrow> Inl e | Inr c' \<Rightarrow> Calc_feeds xs c')"

subsection \<open>SelfPlayRecord\<close>

text \<open>\<^verbatim>\<open>GameOptionsTrain\<close> is declared outside the files at hand; the record holds the options
  that the code reads. \<open>resign_target_hist_size\<close> is the value that reaches the \<^verbatim>\<open>size_t\<close>
  parameter of the calculator.\<close>

record GameOptionsTrain =
  selfplay_init_num :: int
  selfplay_update_num :: int
  selfplay_async :: bool
  resign_target_hist_size :: size_t
  resign_target_fp_rate :: real
  resign_thres_opt :: real
  resign_thres_lower_bound :: real
  resign_thres_upper_bound :: real

text \<open>Modelled from the spec: \<^verbatim>\<open>RecordBuffer\<close> (\<^verbatim>\<open>ctrl_utils.h\<close> is not at hand). The spec has
  a pending-record buffer that a checkpoint flushes to durable storage and clears:
  \<open>pending\<close> is the buffer, \<open>saved\<close> the batches flushed so far, oldest first.\<close>

record 'r RecordBuffer =
  pending :: "'r list"
  saved :: "'r list list"

definition RecordBuffer_init :: "'r RecordBuffer" where
  \<comment> \<open>Modelled from the spec: a fresh \<^verbatim>\<open>RecordBuffer\<close>, nothing pending, nothing saved.\<close>
  "RecordBuffer_init = \<lparr>pending = [], saved = []\<rparr>"

definition RecordBuffer_feed :: "'r \<Rightarrow> 'r RecordBuffer \<Rightarrow> 'r RecordBuffer" where
  \<comment> \<open>Modelled from the spec: \<^verbatim>\<open>RecordBuffer::feed\<close> appends the record to the pending buffer.\<close>
  "RecordBuffer_feed r b = b\<lparr>pending := pending b @ [r]\<rparr>"

definition saveCurrent :: "'r RecordBuffer \<Rightarrow> 'r RecordBuffer" where
  \<comment> \<open>Modelled from the spec: \<^verbatim>\<open>RecordBuffer::saveCurrent\<close> flushes the pending buffer to storage.\<close>
  "saveCurrent b = b\<lparr>saved := saved b @ [pending b]\<rparr>"

definition clear :: "'r RecordBuffer \<Rightarrow> 'r RecordBuffer" where
  \<comment> \<open>Modelled from the spec: \<^verbatim>\<open>RecordBuffer::clear\<close> empties the pending buffer.\<close>
  "clear b = b\<lparr>pending := []\<rparr>"

record 'r SelfPlayRecord =
  ver :: int
  options :: GameOptionsTrain
  records :: "'r RecordBuffer"
  black_win :: int
  white_win :: int
  n_black_resign :: int
  n_white_resign :: int
  move0_100 :: int
  move100_200 :: int
  move200_300 :: int
  move300_up :: int
  counter :: int
  last_counter_shown :: int
  num_weight_update :: int
  resign_threshold :: real

definition SelfPlayRecord_ctor :: "int \<Rightarrow> GameOptionsTrain \<Rightarrow> 'r SelfPlayRecord" where
  "SelfPlayRecord_ctor v opts =
     \<lparr>ver = v, options = opts, records = RecordBuffer_init, black_win = 0, white_win = 0,
      n_black_resign = 0, n_white_resign = 0, move0_100 = 0, move100_200 = 0,
      move200_300 = 0, move300_up = 0, counter = 0, last_counter_shown = 0,
      num_weight_update = 0, resign_threshold = 0\<rparr>"

definition SelfPlayRecord_feed ::
  "Request \<Rightarrow> Result \<Rightarrow> 'r \<Rightarrow> 'r SelfPlayRecord \<Rightarrow> 'r SelfPlayRecord" where
  "SelfPlayRecord_feed request result record' p =
     (let p1 = (if reward result > 0 then p\<lparr>black_win := black_win p + 1\<rparr>
                else p\<lparr>white_win := white_win p + 1\<rparr>);
          p2 = (if \<bar>reward result - 1\<bar> < 1 / 10 then p1\<lparr>n_white_resign := n_white_resign p1 + 1\<rparr>
                else if \<bar>reward result + 1\<bar> < 1 / 10
                     then p1\<lparr>n_black_resign := n_black_resign p1 + 1\<rparr> else p1);
          p3 = p2\<lparr>counter := counter p2 + 1\<rparr>;
          p4 = p3\<lparr>records := RecordBuffer_feed record' (records p3)\<rparr>;
          p5 = (if num_move result < 100 then p4\<lparr>move0_100 := move0_100 p4 + 1\<rparr>
                else if num_move result < 200 then p4\<lparr>move100_200 := move100_200 p4 + 1\<rparr>
                else if num_move result < 300 then p4\<lparr>move200_300 := move200_300 p4 + 1\<rparr>
                else p4\<lparr>move300_up := move300_up p4 + 1\<rparr>)
      in if counter p5 - last_counter_shown p5 \<ge> 100
         then p5\<lparr>last_counter_shown := counter p5\<rparr> else p5)"

definition SelfPlayRecord_n :: "'r SelfPlayRecord \<Rightarrow> int" where
  "SelfPlayRecord_n p = counter p"

text \<open>\<^verbatim>\<open>%\<close> of C++ truncates towards zero: it is \<open>smod\<close>.\<close>

definition is_check_point :: "'r SelfPlayRecord \<Rightarrow> bool" where
  "is_check_point p =
     (if selfplay_init_num (options p) > 0 \<and> selfplay_update_num (options p) > 0
      then (counter p = selfplay_init_num (options p) \<or>
            (counter p > selfplay_init_num (options p) \<and>
             (counter p - selfplay_init_num (options p)) smod selfplay_update_num (options p) = 0))
      else counter p > 0 \<and> counter p smod 1000 = 0)"

definition checkAndSave :: "'r SelfPlayRecord \<Rightarrow> bool \<times> 'r SelfPlayRecord" where
  "checkAndSave p =
     (if is_check_point p then (True, p\<lparr>records := clear (saveCurrent (records p))\<rparr>)
      else (False, p))"

definition SelfPlayRecord_needWaitForMoreSample :: "'r SelfPlayRecord \<Rightarrow> bool" where
  "SelfPlayRecord_needWaitForMoreSample p =
     (if selfplay_init_num (options p) \<le> 0 then False
      else if counter p < selfplay_init_num (options p) then True
      else if selfplay_update_num (options p) \<le> 0 then False
      else counter p < selfplay_init_num (options p) +
             selfplay_update_num (options p) * num_weight_update p)"

definition notifyWeightUpdate :: "'r SelfPlayRecord \<Rightarrow> 'r SelfPlayRecord" where
  "notifyWeightUpdate p = p\<lparr>num_weight_update := num_weight_update p + 1\<rparr>"

definition SelfPlayRecord_fillInRequest :: "'r SelfPlayRecord \<Rightarrow> Request \<Rightarrow> Request" where
  "SelfPlayRecord_fillInRequest p msg =
     msg\<lparr>resign_thres := resign_threshold p, never_resign_prob := 1 / 10,
         async := selfplay_async (options p)\<rparr>"

definition set_resign_threshold :: "real \<Rightarrow> 'r SelfPlayRecord \<Rightarrow> 'r SelfPlayRecord" where
  "set_resign_threshold t p = p\<lparr>resign_threshold := t\<rparr>"

subsection \<open>SelfPlaySubCtrl\<close>

text \<open>The enumerators of \<^verbatim>\<open>FeedResult\<close> are the ones that \<^verbatim>\<open>SelfPlaySubCtrl::feed\<close> returns.\<close>

datatype FeedResult = FEEDED | NOT_SELFPLAY | VERSION_MISMATCH | NOT_REQUESTED

datatype CtrlResult = VERSION_OLD | VERSION_INVALID | INSUFFICIENT_SAMPLE | SUFFICIENT_SAMPLE

record 'r SelfPlaySubCtrl =
  ctrl_options :: GameOptionsTrain
  curr_ver :: int
  perfs :: "int \<rightharpoonup> 'r SelfPlayRecord"
  resignThresholdCalculator :: Calc
  total_selfplay :: int

definition SelfPlaySubCtrl_ctor :: "GameOptionsTrain \<Rightarrow> error + 'r SelfPlaySubCtrl" where
  "SelfPlaySubCtrl_ctor opts =
     (case ResignThresholdCalculator (resign_target_hist_size opts) (resign_target_fp_rate opts)
             (resign_thres_opt opts) (resign_thres_lower_bound opts)
             (resign_thres_upper_bound opts) of
        Inl e \<Rightarrow> Inl e
      | Inr k \<Rightarrow> Inr \<lparr>ctrl_options = opts, curr_ver = - 1, perfs = Map.empty,
                      resignThresholdCalculator = k, total_selfplay = 0\<rparr>)"

definition find_or_null :: "int \<Rightarrow> 'r SelfPlaySubCtrl \<Rightarrow> 'r SelfPlayRecord option" where
  "find_or_null v c = perfs c v"

text \<open>\<^verbatim>\<open>find_or_create\<close> calls \<^verbatim>\<open>updateThreshold()\<close> with the default \<^verbatim>\<open>maxDelta = 0.01\<close>.\<close>

definition find_or_create :: "int \<Rightarrow> 'r SelfPlaySubCtrl \<Rightarrow> error + 'r SelfPlaySubCtrl" where
  "find_or_create v c =
     (case perfs c v of
        Some p \<Rightarrow> Inr c
      | None \<Rightarrow>
          (case updateThreshold (1 / 100) (resignThresholdCalculator c) of
             Inl e \<Rightarrow> Inl e
           | Inr (t, k) \<Rightarrow>
               Inr (c\<lparr>perfs := (perfs c)(v \<mapsto> set_resign_threshold t
                                              (SelfPlayRecord_ctor v (ctrl_options c))),
                      resignThresholdCalculator := k\<rparr>)))"

definition feed ::
  "Request \<Rightarrow> Result \<Rightarrow> 'r \<Rightarrow> 'r SelfPlaySubCtrl \<Rightarrow> error + (FeedResult \<times> 'r SelfPlaySubCtrl)" where
  "feed request result r c =
     (case Calc_feed request result (resignThresholdCalculator c) of
        Inl e \<Rightarrow> Inl e
      | Inr k \<Rightarrow>
          (let c1 = c\<lparr>resignThresholdCalculator := k\<rparr>
           in if \<not> is_selfplay request then Inr (NOT_SELFPLAY, c1)
              else if curr_ver c1 \<noteq> black_ver request then Inr (VERSION_MISMATCH, c1)
              else (case find_or_null (black_ver request) c1 of
                      None \<Rightarrow> Inr (NOT_REQUESTED, c1)
                    | Some perf \<Rightarrow>
                        (let perf1 = SelfPlayRecord_feed request result r perf;
                             perf2 = snd (checkAndSave perf1)
                         in Inr (FEEDED,
                                 c1\<lparr>perfs := (perfs c1)(black_ver request \<mapsto> perf2),
                                    total_selfplay := total_selfplay c1 + 1\<rparr>)))))"

definition getResignThreshold :: "'r SelfPlaySubCtrl \<Rightarrow> real" where
  "getResignThreshold c = getThreshold (resignThresholdCalculator c)"

definition getCurrModel :: "'r SelfPlaySubCtrl \<Rightarrow> int" where
  "getCurrModel c = curr_ver c"

definition setCurrModel :: "int \<Rightarrow> 'r SelfPlaySubCtrl \<Rightarrow> error + (bool \<times> 'r SelfPlaySubCtrl)" where
  "setCurrModel v c =
     (if v \<noteq> curr_ver c
      then (case find_or_create v (c\<lparr>curr_ver := v\<rparr>) of
              Inl e \<Rightarrow> Inl e
            | Inr c' \<Rightarrow> Inr (True, c'))
      else Inr (False, c))"

definition needWaitForMoreSample :: "int \<Rightarrow> 'r SelfPlaySubCtrl \<Rightarrow> CtrlResult" where
  "needWaitForMoreSample selfplay_ver c =
     (if selfplay_ver < curr_ver c then VERSION_OLD
      else (case find_or_null (curr_ver c) c of
              None \<Rightarrow> VERSION_INVALID
            | Some perf \<Rightarrow>
                if SelfPlayRecord_needWaitForMoreSample perf then INSUFFICIENT_SAMPLE
                else SUFFICIENT_SAMPLE))"

definition notifyCurrentWeightUpdate :: "'r SelfPlaySubCtrl \<Rightarrow> error + 'r SelfPlaySubCtrl" where
  "notifyCurrentWeightUpdate c =
     (case find_or_null (curr_ver c) c of
        None \<Rightarrow> Inl AssertionFailed
      | Some perf \<Rightarrow> Inr (c\<lparr>perfs := (perfs c)(curr_ver c \<mapsto> notifyWeightUpdate perf)\<rparr>))"

definition getNumSelfplayCurrModel :: "'r SelfPlaySubCtrl \<Rightarrow> int" where
  "getNumSelfplayCurrModel c =
     (case find_or_null (curr_ver c) c of Some perf \<Rightarrow> SelfPlayRecord_n perf | None \<Rightarrow> 0)"

text \<open>The calls that change a controller, and runs of them; the first error ends a run.\<close>

datatype 'r ctrl_op =
    Feed Request Result 'r
  | SetCurrModel int
  | NotifyCurrentWeightUpdate

fun ctrl_step :: "'r ctrl_op \<Rightarrow> 'r SelfPlaySubCtrl \<Rightarrow> error + 'r SelfPlaySubCtrl" where
  "ctrl_step (Feed rq rs r) c = (case feed rq rs r c of Inl e \<Rightarrow> Inl e | Inr (x, c') \<Rightarrow> Inr c')"
| "ctrl_step (SetCurrModel v) c =
     (case setCurrModel v c of Inl e \<Rightarrow> Inl e | Inr (x, c') \<Rightarrow> Inr c')"
| "ctrl_step NotifyCurrentWeightUpdate c = notifyCurrentWeightUpdate c"

fun ctrl_run :: "'r ctrl_op list \<Rightarrow> 'r SelfPlaySubCtrl \<Rightarrow> error + 'r SelfPlaySubCtrl" where
  "ctrl_run [] c = Inr c"
| "ctrl_run (x # xs) c =
     (case ctrl_step x c of Inl e \<Rightarrow> Inl e | Inr c' \<Rightarrow> ctrl_run xs c')"

subsection \<open>Stats and SharedMemRemote\<close>

text \<open>\<^verbatim>\<open>Stats::feed\<close>: the branch at \<^verbatim>\<open>count_ >= 5000\<close> prints and resets.\<close>

record Stats =
  stats :: "int \<rightharpoonup> int"
  count :: int
  sum_batchsize :: int
  total_batchsize :: int
  total_release_batchsize :: int

definition reset :: "Stats \<Rightarrow> Stats" where
  "reset s = s\<lparr>stats := Map.empty, count := 0, sum_batchsize := 0\<rparr>"

definition Stats_feed :: "int \<Rightarrow> int \<Rightarrow> Stats \<Rightarrow> Stats" where
  "Stats_feed idx batchsize s =
     (let s1 = s\<lparr>stats := (stats s)(idx \<mapsto> (case stats s idx of None \<Rightarrow> 0 | Some x \<Rightarrow> x) + 1)\<rparr>;
          s2 = s1\<lparr>sum_batchsize := sum_batchsize s1 + batchsize\<rparr>;
          s3 = s2\<lparr>total_batchsize := total_batchsize s2 + batchsize\<rparr>;
          s4 = s3\<lparr>count := count s3 + 1\<rparr>
      in if count s4 \<ge> 5000 then reset s4 else s4)"

definition recordRelease :: "int \<Rightarrow> Stats \<Rightarrow> Stats" where
  "recordRelease batchsize s =
     s\<lparr>total_release_batchsize := total_release_batchsize s + batchsize\<rparr>"

datatype Mode = RECV_SMEM | RECV_ENTRY

text \<open>A slot of the receiver. \<open>'d\<close> is the content of one \<^verbatim>\<open>SharedMemData\<close>, \<open>'m\<close> a message.
  \<open>q\<close> is the inbound queue, front first. \<open>stats_ptr\<close> is \<^verbatim>\<open>stats_\<close>, \<open>None\<close> for the null
  pointer. \<open>label_idx\<close> and \<open>effective_batchsize\<close> are the values of
  \<^verbatim>\<open>smem_.getSharedMemOptions().getLabelIdx()\<close> and \<^verbatim>\<open>smem_.getEffectiveBatchSize()\<close>.\<close>

record ('d, 'm) SharedMemRemote =
  mode :: Mode
  remote_smem :: "'d list"
  next_remote_smem :: int
  q :: "'m list"
  stats_ptr :: "Stats option"
  label_idx :: int
  effective_batchsize :: int

text \<open>The constructor: \<open>smem\<close> is \<^verbatim>\<open>smem_\<close>, \<open>copySlice\<close> is \<^verbatim>\<open>smem_.copySlice\<close>, \<open>batchSize\<close> is
  \<^verbatim>\<open>opts.getBatchSize()\<close>.\<close>

definition SharedMemRemote_ctor ::
  "Mode \<Rightarrow> 'd \<Rightarrow> (int \<Rightarrow> 'd) \<Rightarrow> int \<Rightarrow> Stats option \<Rightarrow> int \<Rightarrow> int \<Rightarrow> ('d, 'm) SharedMemRemote" where
  "SharedMemRemote_ctor md smem copySlice batchSize st lbl eff =
     \<lparr>mode = md,
      remote_smem = (case md of RECV_SMEM \<Rightarrow> [smem]
                                | RECV_ENTRY \<Rightarrow> map copySlice [0..batchSize - 1]),
      next_remote_smem = 0, q = [], stats_ptr = st, label_idx = lbl,
      effective_batchsize = eff\<rparr>"

definition push :: "'m \<Rightarrow> ('d, 'm) SharedMemRemote \<Rightarrow> ('d, 'm) SharedMemRemote" where
  "push msg s = s\<lparr>q := q s @ [msg]\<rparr>"

text \<open>The \<^verbatim>\<open>do ... while\<close> loop of \<^verbatim>\<open>waitBatchFillMem\<close>. The first argument is
  \<^verbatim>\<open>elf::SMemFromJson(json::parse(msg), _)\<close>, with \<open>None\<close> where it throws; the second is what
  the queue delivers while the call waits. \<^verbatim>\<open>pop\<close> on the empty queue waits for a producer:
  with nothing more to be delivered the call does not return.\<close>

fun fill_loop ::
  "('m \<Rightarrow> 'd \<Rightarrow> 'd option) \<Rightarrow> 'm list \<Rightarrow> 'd list \<Rightarrow> int \<Rightarrow>
     error + ('d list \<times> int \<times> 'm list)" where
  "fill_loop fromJson [] smem nxt = Inl Blocked"
| "fill_loop fromJson (msg # ms) smem nxt =
     (if nxt < 0 \<or> nxt \<ge> int (length smem) then Inl OutOfRange
      else case fromJson msg (smem ! nat nxt) of
             None \<Rightarrow> Inl ParseError
           | Some d \<Rightarrow>
               let smem' = smem[nat nxt := d];
                   nxt' = nxt + 1
               in if nxt' < int (length smem') then fill_loop fromJson ms smem' nxt'
                  else Inr (smem', nxt', ms))"

definition waitBatchFillMem ::
  "('m \<Rightarrow> 'd \<Rightarrow> 'd option) \<Rightarrow> ('d, 'm) SharedMemRemote \<Rightarrow> error + ('d, 'm) SharedMemRemote" where
  "waitBatchFillMem fromJson s =
     (case fill_loop fromJson (q s) (remote_smem s) (next_remote_smem s) of
        Inl e \<Rightarrow> Inl e
      | Inr (smem', nxt', q') \<Rightarrow>
          Inr (s\<lparr>remote_smem := smem', q := q',
                 stats_ptr := map_option (Stats_feed (label_idx s) (effective_batchsize s))
                                (stats_ptr s),
                 next_remote_smem := 0\<rparr>))"

subsection \<open>Properties in the words of the specification, and invariants\<close>

text \<open>The winner's own entries of the value sequence, sign-normalised: the even indices
  with \<open>1 + v\<close> if black won, the odd indices with \<open>1 - v\<close> if white won.\<close>

definition winner_entries :: "Result \<Rightarrow> real list" where
  "winner_entries result =
     (if reward result > 0
      then map (\<lambda>i. 1 + values result ! i) (filter even [0..<length (values result)])
      else map (\<lambda>i. 1 - values result ! i) (filter odd [0..<length (values result)]))"

text \<open>The invariant of the window: its size is at most \<open>histSize\<close>, and each windowed
  counter is the number of window members that count for it.\<close>

definition window_inv :: "Calc \<Rightarrow> bool" where
  "window_inv c \<longleftrightarrow>
     length (winnerMinValues c) \<le> unat (histSize c) \<and>
     unat (stat_n (nr_stats c)) = length (winnerMinValues c) \<and>
     unat (stat_fp (nr_stats c)) = length (filter fp (winnerMinValues c)) \<and>
     unat (stat_blackWin (nr_stats c)) = length (filter blackWin (winnerMinValues c))"

text \<open>The same agreement on the machine words, without the bound on the size.\<close>

definition counters_agree :: "NRStats \<Rightarrow> NRItem list \<Rightarrow> bool" where
  "counters_agree s w \<longleftrightarrow>
     stat_n s = of_nat (length w) \<and>
     stat_fp s = of_nat (length (filter fp w)) \<and>
     stat_blackWin s = of_nat (length (filter blackWin w))"

text \<open>The samples that a sequence of games puts into the window, in the order of the games.\<close>

definition never_resign_items :: "(Request \<times> Result) list \<Rightarrow> NRItem list" where
  "never_resign_items xs =
     map (\<lambda>(rq, rs). NRItem_ctor rq rs) (filter (\<lambda>(rq, rs). never_resign rs) xs)"

text \<open>The invariant that the constructor establishes and \<^verbatim>\<open>feed\<close> keeps.\<close>

definition calc_ok :: "Calc \<Rightarrow> bool" where
  "calc_ok c \<longleftrightarrow>
     0 < unat (histSize c) \<and> length (winnerMinValues c) \<le> unat (histSize c) \<and>
     counters_agree (nr_stats c) (winnerMinValues c)"






subsection \<open>Concrete inputs\<close>

definition ex_request :: "real \<Rightarrow> Request" where
  "ex_request t = \<lparr>black_ver = 0, white_ver = - 1, is_selfplay = True, resign_thres = t,
                    never_resign_prob = 1 / 10, async = False\<rparr>"

definition ex_result :: "real \<Rightarrow> bool \<Rightarrow> real list \<Rightarrow> Result" where
  "ex_result r nr vs = \<lparr>reward = r, never_resign = nr, values = vs, num_move = int (length vs)\<rparr>"

text \<open>The calculator that the constructor returns.\<close>

definition ex_calc :: "size_t \<Rightarrow> real \<Rightarrow> real \<Rightarrow> real \<Rightarrow> real \<Rightarrow> Calc" where
  "ex_calc hs fpt t0 mn mx =
     \<lparr>histSize = hs, falsePositiveTarget = fpt, curThreshold = t0,
      minThreshold = mn, maxThreshold = mx, numGamesFed = 0,
      numGamesFedBlackWin = 0, winnerMinValues = [], nr_stats = NRStats_init\<rparr>"

definition ex_item :: "real \<Rightarrow> NRItem" where
  "ex_item v = \<lparr>minValue = v, fp = False, blackWin = True\<rparr>"

text \<open>What every reachable controller satisfies: the calculator passed the constructor's
  assertion on \<open>histSize\<close>, and every record holds the controller's options and a weight-update
  count that is not negative.\<close>

definition ctrl_inv :: "'r SelfPlaySubCtrl \<Rightarrow> bool" where
  "ctrl_inv c \<longleftrightarrow>
     0 < unat (histSize (resignThresholdCalculator c)) \<and>
     (\<forall>v p. perfs c v = Some p \<longrightarrow> options p = ctrl_options c \<and> 0 \<le> num_weight_update p)"

definition ex_options :: "int \<Rightarrow> int \<Rightarrow> GameOptionsTrain" where
  "ex_options i u =
     \<lparr>selfplay_init_num = i, selfplay_update_num = u, selfplay_async = False,
      resign_target_hist_size = 5, resign_target_fp_rate = 1 / 2, resign_thres_opt = 1 / 2,
      resign_thres_lower_bound = 0, resign_thres_upper_bound = 2\<rparr>"

definition ex_record :: "int \<Rightarrow> int \<Rightarrow> int \<Rightarrow> int \<Rightarrow> nat SelfPlayRecord" where
  "ex_record i u cnt nwu =
     (SelfPlayRecord_ctor 0 (ex_options i u))\<lparr>counter := cnt, num_weight_update := nwu\<rparr>"

definition ex_ctrl :: "int \<Rightarrow> int \<Rightarrow> nat SelfPlaySubCtrl" where
  "ex_ctrl i u =
     \<lparr>ctrl_options = ex_options i u, curr_ver = - 1, perfs = Map.empty,
      resignThresholdCalculator = ex_calc 5 (1 / 2) (1 / 2) 0 2, total_selfplay = 0\<rparr>"

text \<open>The calculator after five never-resign games that white won with the values
  \<open>[0, 63/128]\<close>, fed under the resign threshold \<open>1/2\<close>.\<close>

definition ex_fed_calc :: Calc where
  "ex_fed_calc =
     ex_calc 5 (1 / 2) (1 / 2) 0 2
       \<lparr>numGamesFed := 5,
        winnerMinValues :=
          [\<lparr>minValue = 65 / 128, fp = False, blackWin = False\<rparr>,
           \<lparr>minValue = 65 / 128, fp = False, blackWin = False\<rparr>,
           \<lparr>minValue = 65 / 128, fp = False, blackWin = False\<rparr>,
           \<lparr>minValue = 65 / 128, fp = False, blackWin = False\<rparr>,
           \<lparr>minValue = 65 / 128, fp = False, blackWin = False\<rparr>],
        nr_stats := \<lparr>stat_fp = 0, stat_n = 5, stat_blackWin = 0, total_n = 5, totalBlackWin = 0\<rparr>\<rparr>"

text \<open>The controller \<open>ex_ctrl 2 1\<close> after \<^verbatim>\<open>setCurrModel(0)\<close> and two games of version 0.\<close>

definition ex_ctrl_after :: "nat SelfPlaySubCtrl" where
  "ex_ctrl_after =
     ex_ctrl 2 1
       \<lparr>curr_ver := 0,
        perfs := [0 \<mapsto> (SelfPlayRecord_ctor 0 (ex_options 2 1))
                          \<lparr>records := \<lparr>pending = [], saved = [[7, 8]]\<rparr>,
                           black_win := 1, white_win := 1,
                           n_black_resign := 1, n_white_resign := 1,
                           move0_100 := 2, counter := 2, resign_threshold := 1 / 2\<rparr>],
        resignThresholdCalculator :=
          ex_calc 5 (1 / 2) (1 / 2) 0 2 \<lparr>numGamesFed := 2, numGamesFedBlackWin := 1\<rparr>,
        total_selfplay := 2\<rparr>"

text \<open>The deliveries in the order of arrival, each decoded into the position of its rank:
  the \<open>i\<close>-th message into position \<open>i\<close>, as far as messages and positions go.\<close>

definition decoded :: "('m \<Rightarrow> 'd \<Rightarrow> 'd option) \<Rightarrow> 'm list \<Rightarrow> 'd list \<Rightarrow> 'd option list" where
  "decoded fromJson ms smem = map (\<lambda>(m, d). fromJson m d) (zip ms smem)"

definition ex_slot :: "(nat, nat) SharedMemRemote" where
  "ex_slot = SharedMemRemote_ctor RECV_ENTRY 0 (\<lambda>i. 0) 3 None 0 3"

section \<open>The calculator\<close>

subsection \<open>The scan of the value sequence\<close>

lemma Min_insert_min:
  fixes S :: "real set"
  assumes "finite S"
  shows "Min (insert (min m x) S) = Min (insert m (insert x S))"
proof (cases "S = {}")
  case True
  then show ?thesis by (simp add: min.commute)
next
  case False
  with assms show ?thesis by (simp add: min.assoc)
qed

lemma stride_split:
  fixes i len :: nat
  assumes "i < len"
  shows "{j. j < len \<and> (\<exists>k. j = i + 2 * k)} = insert i {j. j < len \<and> (\<exists>k. j = (i + 2) + 2 * k)}"
    (is "?A = insert i ?B")
proof (rule set_eqI)
  fix j :: nat
  show "j \<in> ?A \<longleftrightarrow> j \<in> insert i ?B"
  proof
    assume "j \<in> ?A"
    then obtain k where k: "j < len" "j = i + 2 * k" by auto
    show "j \<in> insert i ?B"
    proof (cases k)
      case 0
      with k show ?thesis by simp
    next
      case (Suc k')
      with k have "j = (i + 2) + 2 * k'" by simp
      with k show ?thesis by blast
    qed
  next
    assume "j \<in> insert i ?B"
    then consider "j = i" | k where "j < len" "j = (i + 2) + 2 * k" by auto
    then show "j \<in> ?A"
    proof cases
      case 1
      then have "j = i + 2 * 0" by simp
      with assms 1 show ?thesis by blast
    next
      case 2
      then have "j = i + 2 * Suc k" by simp
      with 2 show ?thesis by blast
    qed
  qed
qed

lemma NRItem_loop_Min:
  "NRItem_loop bw vs i m =
     Min (insert m ((\<lambda>j. if bw then 1 + vs ! j else 1 - vs ! j) `
                     {j. j < length vs \<and> (\<exists>k. j = i + 2 * k)}))"
proof (induction bw vs i m rule: NRItem_loop.induct)
  case (1 bw vs i m)
  let ?f = "\<lambda>j. if bw then 1 + vs ! j else 1 - vs ! j"
  let ?A = "{j. j < length vs \<and> (\<exists>k. j = i + 2 * k)}"
  let ?B = "{j. j < length vs \<and> (\<exists>k. j = (i + 2) + 2 * k)}"
  show ?case
  proof (cases "i < length vs")
    case False
    then have e: "?A = {}" by auto
    have "NRItem_loop bw vs i m = m"
      using False by (simp add: NRItem_loop.simps [of bw vs i m])
    then show ?thesis unfolding e by simp
  next
    case True
    have fin: "finite (?f ` ?B)" by simp
    have "NRItem_loop bw vs i m = NRItem_loop bw vs (i + 2) (min m (?f i))"
      using True by (simp add: NRItem_loop.simps [of bw vs i m])
    also have "\<dots> = Min (insert (min m (?f i)) (?f ` ?B))"
      using "1.IH" [OF True] by simp
    also have "\<dots> = Min (insert m (insert (?f i) (?f ` ?B)))"
      by (rule Min_insert_min [OF fin])
    also have "insert (?f i) (?f ` ?B) = ?f ` ?A"
      unfolding stride_split [OF True] by simp
    finally show ?thesis .
  qed
qed

lemma NRItem_minValue:
  "minValue (NRItem_ctor rq rs) = Min (insert 2 (set (winner_entries rs)))"
proof (cases "reward rs > 0")
  case True
  have e: "{j. j < length (values rs) \<and> (\<exists>k. j = 0 + 2 * k)} =
        set (filter even [0..<length (values rs)])" by (auto elim: evenE)
  have "minValue (NRItem_ctor rq rs) = NRItem_loop True (values rs) 0 2"
    using True by (simp add: NRItem_ctor_def Let_def)
  also have "\<dots> = Min (insert 2 (set (map (\<lambda>i. 1 + values rs ! i)
                        (filter even [0..<length (values rs)]))))"
    unfolding NRItem_loop_Min e by simp
  finally show ?thesis using True by (simp add: winner_entries_def)
next
  case False
  have e: "{j. j < length (values rs) \<and> (\<exists>k. j = 1 + 2 * k)} =
        set (filter odd [0..<length (values rs)])" by (auto elim: oddE)
  have "minValue (NRItem_ctor rq rs) = NRItem_loop False (values rs) 1 2"
    using False by (simp add: NRItem_ctor_def Let_def)
  also have "\<dots> = Min (insert 2 (set (map (\<lambda>i. 1 - values rs ! i)
                        (filter odd [0..<length (values rs)]))))"
    unfolding NRItem_loop_Min e by simp
  finally show ?thesis using False by (simp add: winner_entries_def)
qed

subsection \<open>The window and its counters\<close>

lemma changeStat_sel [simp]:
  "stat_n (changeStat it d s) = stat_n s + word_of_int d"
  "stat_fp (changeStat it d s) = (if fp it then stat_fp s + word_of_int d else stat_fp s)"
  "stat_blackWin (changeStat it d s) =
     (if blackWin it then stat_blackWin s + word_of_int d else stat_blackWin s)"
  "total_n (changeStat it d s) = total_n s"
  "totalBlackWin (changeStat it d s) = totalBlackWin s"
  by (simp_all add: changeStat_def Let_def)

lemma counters_agree_pop:
  "counters_agree s (x # xs) \<Longrightarrow> counters_agree (changeStat x (- 1) s) xs"
  by (simp add: counters_agree_def)

lemma counters_agree_push:
  "counters_agree s w \<Longrightarrow> counters_agree (changeStat it 1 s) (w @ [it])"
  by (simp add: counters_agree_def)

lemma evict_Inr:
  assumes "0 < unat hs"
  shows "\<exists>s'. evict hs s w = Inr (s', drop (Suc (length w) - unat hs) w)"
  using assms
proof (induction w arbitrary: s)
  case Nil
  then show ?case by simp
next
  case (Cons x xs)
  show ?case
  proof (cases "length (x # xs) \<ge> unat hs")
    case True
    then have d: "Suc (length (x # xs)) - unat hs = Suc (Suc (length xs) - unat hs)"
      by simp
    from Cons.IH [OF Cons.prems, of "changeStat x (- 1) s"] True
    show ?thesis unfolding d by simp
  next
    case False
    then have "Suc (length (x # xs)) - unat hs = 0" by simp
    with False show ?thesis by simp
  qed
qed

lemma evict_agree:
  assumes "counters_agree s w" and "evict hs s w = Inr (s', w')"
  shows "counters_agree s' w'"
  using assms
proof (induction w arbitrary: s)
  case Nil
  then show ?case by (simp split: if_splits)
next
  case (Cons x xs)
  show ?case
  proof (cases "length (x # xs) \<ge> unat hs")
    case True
    with Cons.prems(2) have "evict hs (changeStat x (- 1) s) xs = Inr (s', w')" by simp
    from Cons.IH [OF counters_agree_pop [OF Cons.prems(1)] this] show ?thesis .
  next
    case False
    with Cons.prems show ?thesis by simp
  qed
qed

lemma feedWinnerMinvalue_spec:
  assumes "0 < unat (histSize c)"
  shows "\<exists>c'. feedWinnerMinvalue it c = Inr c' \<and>
           histSize c' = histSize c \<and> falsePositiveTarget c' = falsePositiveTarget c \<and>
           curThreshold c' = curThreshold c \<and> minThreshold c' = minThreshold c \<and>
           maxThreshold c' = maxThreshold c \<and> numGamesFed c' = numGamesFed c \<and>
           numGamesFedBlackWin c' = numGamesFedBlackWin c \<and>
           winnerMinValues c' =
             drop (Suc (length (winnerMinValues c)) - unat (histSize c)) (winnerMinValues c) @ [it]"
proof -
  from evict_Inr [OF assms] obtain s' where
    "evict (histSize c) (nr_stats c) (winnerMinValues c) =
       Inr (s', drop (Suc (length (winnerMinValues c)) - unat (histSize c)) (winnerMinValues c))"
    by blast
  then show ?thesis by (simp add: feedWinnerMinvalue_def)
qed

lemma feedWinnerMinvalue_agree:
  assumes "counters_agree (nr_stats c) (winnerMinValues c)"
    and "feedWinnerMinvalue it c = Inr c'"
  shows "counters_agree (nr_stats c') (winnerMinValues c')"
proof -
  from assms(2) obtain s w where
    e: "evict (histSize c) (nr_stats c) (winnerMinValues c) = Inr (s, w)"
    and c': "c' = c\<lparr>winnerMinValues := w @ [it], nr_stats := changeStat it 1 s\<rparr>"
    by (auto simp: feedWinnerMinvalue_def split: sum.splits)
  from counters_agree_push [OF evict_agree [OF assms(1) e]] show ?thesis
    by (simp add: c')
qed

lemma NRStats_feed_sel [simp]:
  "stat_n (NRStats_feed v s) = stat_n s"
  "stat_fp (NRStats_feed v s) = stat_fp s"
  "stat_blackWin (NRStats_feed v s) = stat_blackWin s"
  by (simp_all add: NRStats_feed_def Let_def)

lemma counters_agree_NRStats_feed [simp]:
  "counters_agree (NRStats_feed v s) w = counters_agree s w"
  by (simp add: counters_agree_def)

lemma Calc_feed_spec:
  assumes "0 < unat (histSize c)"
  shows "\<exists>c'. Calc_feed rq rs c = Inr c' \<and>
           histSize c' = histSize c \<and> falsePositiveTarget c' = falsePositiveTarget c \<and>
           curThreshold c' = curThreshold c \<and> minThreshold c' = minThreshold c \<and>
           maxThreshold c' = maxThreshold c \<and>
           numGamesFed c' = numGamesFed c + 1 \<and>
           numGamesFedBlackWin c' =
             (if reward rs > 0 then numGamesFedBlackWin c + 1 else numGamesFedBlackWin c) \<and>
           (if never_resign rs
            then winnerMinValues c' =
                   drop (Suc (length (winnerMinValues c)) - unat (histSize c))
                     (winnerMinValues c) @ [NRItem_ctor rq rs]
            else winnerMinValues c' = winnerMinValues c \<and> nr_stats c' = nr_stats c)"
proof (cases "never_resign rs")
  case False
  then show ?thesis by (simp add: Calc_feed_def Let_def)
next
  case True
  define c2 where "c2 = (if reward rs > 0
              then c\<lparr>numGamesFed := numGamesFed c + 1,
                     numGamesFedBlackWin := numGamesFedBlackWin c + 1\<rparr>
              else c\<lparr>numGamesFed := numGamesFed c + 1\<rparr>)
             \<lparr>nr_stats := NRStats_feed (reward rs) (nr_stats c)\<rparr>"
  have sel: "histSize c2 = histSize c" "falsePositiveTarget c2 = falsePositiveTarget c"
    "curThreshold c2 = curThreshold c" "minThreshold c2 = minThreshold c"
    "maxThreshold c2 = maxThreshold c" "numGamesFed c2 = numGamesFed c + 1"
    "numGamesFedBlackWin c2 =
       (if reward rs > 0 then numGamesFedBlackWin c + 1 else numGamesFedBlackWin c)"
    "winnerMinValues c2 = winnerMinValues c"
    by (simp_all add: c2_def)
  have h: "0 < unat (histSize c2)" using assms by (simp add: sel)
  have "Calc_feed rq rs c = feedWinnerMinvalue (NRItem_ctor rq rs) c2"
    using True by (simp add: Calc_feed_def Let_def c2_def)
  with feedWinnerMinvalue_spec [OF h, of "NRItem_ctor rq rs"] True show ?thesis
    by (auto simp: sel)
qed

lemma Calc_feed_agree:
  assumes "counters_agree (nr_stats c) (winnerMinValues c)" and "Calc_feed rq rs c = Inr c'"
  shows "counters_agree (nr_stats c') (winnerMinValues c')"
proof (cases "never_resign rs")
  case False
  with assms show ?thesis by (auto simp: Calc_feed_def Let_def split: if_splits)
next
  case True
  define c2 where "c2 = (if reward rs > 0
              then c\<lparr>numGamesFed := numGamesFed c + 1,
                     numGamesFedBlackWin := numGamesFedBlackWin c + 1\<rparr>
              else c\<lparr>numGamesFed := numGamesFed c + 1\<rparr>)
             \<lparr>nr_stats := NRStats_feed (reward rs) (nr_stats c)\<rparr>"
  have a: "counters_agree (nr_stats c2) (winnerMinValues c2)"
    using assms(1) by (simp add: c2_def)
  have "Calc_feed rq rs c = feedWinnerMinvalue (NRItem_ctor rq rs) c2"
    using True by (simp add: Calc_feed_def Let_def c2_def)
  with assms(2) feedWinnerMinvalue_agree [OF a] show ?thesis by simp
qed

lemma Calc_feed_ok:
  assumes "calc_ok c"
  shows "\<exists>c'. Calc_feed rq rs c = Inr c' \<and> calc_ok c' \<and> histSize c' = histSize c \<and>
           winnerMinValues c' =
             (if never_resign rs
              then drop (Suc (length (winnerMinValues c)) - unat (histSize c))
                     (winnerMinValues c) @ [NRItem_ctor rq rs]
              else winnerMinValues c)"
proof -
  from assms have h: "0 < unat (histSize c)"
    and a: "counters_agree (nr_stats c) (winnerMinValues c)"
    and l: "length (winnerMinValues c) \<le> unat (histSize c)"
    by (simp_all add: calc_ok_def)
  from Calc_feed_spec [OF h, of rq rs] obtain c' where c':
    "Calc_feed rq rs c = Inr c'" "histSize c' = histSize c"
    "if never_resign rs
     then winnerMinValues c' =
            drop (Suc (length (winnerMinValues c)) - unat (histSize c))
              (winnerMinValues c) @ [NRItem_ctor rq rs]
     else winnerMinValues c' = winnerMinValues c \<and> nr_stats c' = nr_stats c"
    by blast
  from c'(3) h l have "length (winnerMinValues c') \<le> unat (histSize c)"
    by (auto split: if_splits)
  with c' h Calc_feed_agree [OF a c'(1)] show ?thesis
    by (auto simp: calc_ok_def split: if_splits)
qed

lemma drop_window_step:
  fixes w :: "'a list"
  assumes "0 < h" and "length w \<le> h"
  shows "drop (length ((drop (Suc (length w) - h) w @ [x]) @ ys) - h)
           ((drop (Suc (length w) - h) w @ [x]) @ ys) =
         drop (length (w @ x # ys) - h) (w @ x # ys)"
proof (cases "length w = h")
  case True
  with assms obtain a w' where w: "w = a # w'" by (cases w) auto
  with True have h: "h = Suc (length w')" by simp
  show ?thesis unfolding w h by simp
next
  case False
  with assms have "Suc (length w) - h = 0" by simp
  then show ?thesis by simp
qed

lemma Calc_feeds_ok:
  assumes "calc_ok c"
  shows "\<exists>c'. Calc_feeds xs c = Inr c' \<and> calc_ok c' \<and> histSize c' = histSize c \<and>
           winnerMinValues c' =
             drop (length (winnerMinValues c @ never_resign_items xs) - unat (histSize c))
               (winnerMinValues c @ never_resign_items xs)"
  using assms
proof (induction xs arbitrary: c)
  case Nil
  then show ?case by (simp add: never_resign_items_def calc_ok_def)
next
  case (Cons x xs)
  obtain rq rs where x: "x = (rq, rs)" by (cases x)
  from Calc_feed_ok [OF Cons.prems, of rq rs] obtain c1 where c1:
    "Calc_feed rq rs c = Inr c1" "calc_ok c1" "histSize c1 = histSize c"
    "winnerMinValues c1 =
       (if never_resign rs
        then drop (Suc (length (winnerMinValues c)) - unat (histSize c))
               (winnerMinValues c) @ [NRItem_ctor rq rs]
        else winnerMinValues c)"
    by blast
  from Cons.IH [OF c1(2)] obtain c' where c':
    "Calc_feeds xs c1 = Inr c'" "calc_ok c'" "histSize c' = histSize c1"
    "winnerMinValues c' =
       drop (length (winnerMinValues c1 @ never_resign_items xs) - unat (histSize c1))
         (winnerMinValues c1 @ never_resign_items xs)"
    by blast
  have "winnerMinValues c' =
          drop (length (winnerMinValues c @ never_resign_items (x # xs)) - unat (histSize c))
            (winnerMinValues c @ never_resign_items (x # xs))"
  proof (cases "never_resign rs")
    case False
    with c1 c' x show ?thesis by (simp add: never_resign_items_def)
  next
    case True
    from Cons.prems have "0 < unat (histSize c)" "length (winnerMinValues c) \<le> unat (histSize c)"
      by (simp_all add: calc_ok_def)
    from drop_window_step [OF this, of "NRItem_ctor rq rs" "never_resign_items xs"]
    show ?thesis using True c1 c' x by (simp add: never_resign_items_def)
  qed
  with c1 c' x show ?case by simp
qed

lemma calc_ok_window_inv:
  assumes "calc_ok c"
  shows "window_inv c"
proof -
  from assms have l: "length (winnerMinValues c) \<le> unat (histSize c)"
    and a: "counters_agree (nr_stats c) (winnerMinValues c)"
    by (simp_all add: calc_ok_def)
  have u: "unat (of_nat k :: 64 word) = k" if "k \<le> length (winnerMinValues c)" for k
    using that l by (intro le_unat_uoi [of _ "histSize c"]) simp
  from a show ?thesis
    unfolding window_inv_def counters_agree_def using l by (simp add: u)
qed

lemma ctor_calc_ok:
  assumes "ResignThresholdCalculator hs fpt t0 mn mx = Inr c0"
  shows "calc_ok c0 \<and> histSize c0 = hs \<and> winnerMinValues c0 = []"
  using assms
  by (auto simp: ResignThresholdCalculator_def calc_ok_def counters_agree_def NRStats_init_def
        word_greater_zero_iff unat_gt_0 split: if_splits)

lemmas calc_eval = Calc_feed_def feedWinnerMinvalue_def NRItem_ctor_def NRItem_loop.simps
  changeStat_def NRStats_feed_def NRStats_init_def Let_def ex_calc_def ex_request_def
  ex_result_def ex_item_def updateThreshold_def position_def clampThreshold_def
  nth_element_minValue_def ResignThresholdCalculator_def

lemma word_pos_unat: "0 < (w :: size_t) \<Longrightarrow> 0 < unat w"
  by (simp add: word_greater_zero_iff unat_gt_0)

text \<open>
  C4. A calculator that the constructor returned, after any sequence of \<^verbatim>\<open>feed\<close> calls:
  every call returns; the window holds at most \<open>histSize\<close> samples; the windowed counters
  \<^verbatim>\<open>n\<close>, \<^verbatim>\<open>fp\<close> and \<^verbatim>\<open>blackWin\<close> are the numbers of window members, of members flagged as false
  positive and of members won by black; and the window is the last \<open>histSize\<close> never-resign
  samples in the order they were fed, so that eviction is oldest first. (In \<open>evict\<close> the
  counters are decremented for the front sample before it is popped.)
\<close>

theorem window_counters_exact:
  assumes "ResignThresholdCalculator hs fpt t0 mn mx = Inr c0"
  shows "\<exists>c. Calc_feeds xs c0 = Inr c \<and> window_inv c \<and> histSize c = hs \<and>
             winnerMinValues c =
               drop (length (never_resign_items xs) - unat hs) (never_resign_items xs)"
proof -
  from ctor_calc_ok [OF assms] have ok: "calc_ok c0" and hs: "histSize c0 = hs"
    and w: "winnerMinValues c0 = []" by simp_all
  from Calc_feeds_ok [OF ok, of xs] obtain c where
    "Calc_feeds xs c0 = Inr c" "calc_ok c" "histSize c = histSize c0"
    "winnerMinValues c =
       drop (length (winnerMinValues c0 @ never_resign_items xs) - unat (histSize c0))
         (winnerMinValues c0 @ never_resign_items xs)"
    by blast
  with hs w calc_ok_window_inv [of c] show ?thesis by simp
qed

theorem window_counters_exact_witness:
  "ResignThresholdCalculator 2 (1 / 2) (1 / 2) 0 2 = Inr (ex_calc 2 (1 / 2) (1 / 2) 0 2) \<and>
   (\<exists>c. Calc_feeds [(ex_request (1 / 2), ex_result 1 True [0, 0, - 3 / 4]),
                     (ex_request (1 / 2), ex_result (- 1) True [0, 1 / 2]),
                     (ex_request (1 / 2), ex_result 1 False [0]),
                     (ex_request (1 / 2), ex_result 1 True [])]
            (ex_calc 2 (1 / 2) (1 / 2) 0 2) = Inr c \<and>
        window_inv c \<and> length (winnerMinValues c) = 2)"
proof -
  let ?xs = "[(ex_request (1 / 2), ex_result 1 True [0, 0, - 3 / 4]),
              (ex_request (1 / 2), ex_result (- 1) True [0, 1 / 2]),
              (ex_request (1 / 2), ex_result 1 False [0]),
              (ex_request (1 / 2), ex_result 1 True [])]"
  have h: "ResignThresholdCalculator 2 (1 / 2) (1 / 2) 0 2 = Inr (ex_calc 2 (1 / 2) (1 / 2) 0 2)"
    by (simp add: ResignThresholdCalculator_def ex_calc_def)
  from window_counters_exact [OF h, of ?xs]
  obtain c where c: "Calc_feeds ?xs (ex_calc 2 (1 / 2) (1 / 2) 0 2) = Inr c" "window_inv c"
    "winnerMinValues c =
       drop (length (never_resign_items ?xs) - unat (2 :: size_t)) (never_resign_items ?xs)"
    by blast
  from c(3) have "length (winnerMinValues c) = 2"
    by (simp add: never_resign_items_def ex_result_def)
  with h c(1,2) show ?thesis by blast
qed

subsection \<open>The sample of one game\<close>

lemma NRItem_ctor_eq:
  "NRItem_ctor rq rs =
     \<lparr>minValue = Min (insert 2 (set (winner_entries rs))),
      fp = (resign_thres rq > Min (insert 2 (set (winner_entries rs)))),
      blackWin = (reward rs > 0)\<rparr>"
  using NRItem_minValue [of rq rs] by (simp add: NRItem_ctor_def Let_def)





lemma winner_entries_empty_iff:
  "winner_entries rs = [] \<longleftrightarrow>
     (if reward rs > 0 then values rs = [] else length (values rs) \<le> 1)"
proof (cases "reward rs > 0")
  case True
  have "filter even [0..<length (values rs)] = [] \<longleftrightarrow> values rs = []"
  proof
    assume e: "filter even [0..<length (values rs)] = []"
    show "values rs = []"
    proof (rule ccontr)
      assume "values rs \<noteq> []"
      then have "0 \<in> set [0..<length (values rs)]" by simp
      moreover from e have "\<forall>x\<in>set [0..<length (values rs)]. \<not> even x"
        by (simp add: filter_empty_conv)
      ultimately have "\<not> even (0 :: nat)" by blast
      then show False by simp
    qed
  next
    assume "values rs = []"
    then show "filter even [0..<length (values rs)] = []" by simp
  qed
  with True show ?thesis by (simp add: winner_entries_def)
next
  case False
  have "filter odd [0..<length (values rs)] = [] \<longleftrightarrow> length (values rs) \<le> 1"
  proof
    assume e: "filter odd [0..<length (values rs)] = []"
    show "length (values rs) \<le> 1"
    proof (rule ccontr)
      assume "\<not> length (values rs) \<le> 1"
      then have "1 \<in> set [0..<length (values rs)]" by simp
      moreover from e have "\<forall>x\<in>set [0..<length (values rs)]. \<not> odd x"
        by (simp add: filter_empty_conv)
      ultimately have "\<not> odd (1 :: nat)" by blast
      then show False by simp
    qed
  next
    assume l: "length (values rs) \<le> 1"
    have "\<not> odd x" if "x \<in> set [0..<length (values rs)]" for x
    proof -
      from that l have "x = 0" by simp
      then show ?thesis by simp
    qed
    then show "filter odd [0..<length (values rs)] = []" by (simp add: filter_empty_conv)
  qed
  with False show ?thesis by (simp add: winner_entries_def)
qed

text \<open>
  C10. A never-resign result whose value sequence has no entry at the winner's indices (the
  empty sequence, or a single entry when white won), fed to a calculator with \<open>histSize > 0\<close>:
  \<^verbatim>\<open>feed\<close> still appends a sample to the window; its minimum value is the sentinel 2 and its
  false-positive flag is \<open>resign_thres > 2\<close>, hence false for every threshold that is at most a
  \<open>maxThreshold\<close> within the bound 2 that the constructor asserts.
\<close>

theorem sentinel_sample:
  assumes "0 < histSize c" and "never_resign rs" and "winner_entries rs = []"
  shows "\<exists>c'. Calc_feed rq rs c = Inr c' \<and>
           winnerMinValues c' =
             drop (Suc (length (winnerMinValues c)) - unat (histSize c)) (winnerMinValues c) @
             [\<lparr>minValue = 2, fp = (resign_thres rq > 2), blackWin = (reward rs > 0)\<rparr>] \<and>
           (if resign_thres rq \<le> maxThreshold c \<and> maxThreshold c \<le> 2
            then \<not> fp (last (winnerMinValues c')) else True)"
  using Calc_feed_spec [OF word_pos_unat [OF assms(1)], of rq rs] assms(2,3)
  unfolding NRItem_ctor_eq by auto

theorem sentinel_sample_witness:
  "0 < histSize (ex_calc 2 (1 / 2) (1 / 2) 0 2) \<and>
   never_resign (ex_result (- 1) True [3 / 10]) \<and>
   winner_entries (ex_result (- 1) True [3 / 10]) = [] \<and>
   Calc_feed (ex_request 2) (ex_result (- 1) True [3 / 10]) (ex_calc 2 (1 / 2) (1 / 2) 0 2) =
   Inr (ex_calc 2 (1 / 2) (1 / 2) 0 2
        \<lparr>numGamesFed := 1,
         winnerMinValues := [\<lparr>minValue = 2, fp = False, blackWin = False\<rparr>],
         nr_stats := \<lparr>stat_fp = 0, stat_n = 1, stat_blackWin = 0, total_n = 1, totalBlackWin = 0\<rparr>\<rparr>)"
  using sentinel_sample [of "ex_calc 2 (1 / 2) (1 / 2) 0 2" "ex_result (- 1) True [3 / 10]"
      "ex_request 2"]
  by (simp add: calc_eval winner_entries_def)

subsection \<open>The order statistic of \<^verbatim>\<open>updateThreshold\<close>\<close>







subsection \<open>The clamps of \<^verbatim>\<open>updateThreshold\<close>\<close>









section \<open>The per-version record\<close>

lemma smod_zero_iff:
  fixes a b :: int
  assumes "0 < a" and "0 < b"
  shows "a smod b = 0 \<longleftrightarrow> (\<exists>k. 0 < k \<and> a = k * b)"
proof -
  from assms have "a smod b = a mod b" by (simp add: smod_int_alt_def)
  moreover have "a mod b = 0 \<longleftrightarrow> (\<exists>k. 0 < k \<and> a = k * b)"
  proof
    assume "a mod b = 0"
    then have "b dvd a" by (simp add: mod_eq_0_iff_dvd)
    then obtain k' where "a = b * k'" by (rule dvdE)
    then have k: "a = k' * b" by simp
    define k where "k = k'"
    note k = k [folded k_def]
    with assms have "0 < k" by (simp add: zero_less_mult_iff)
    with k show "\<exists>k. 0 < k \<and> a = k * b" by blast
  next
    assume "\<exists>k. 0 < k \<and> a = k * b"
    then show "a mod b = 0" by auto
  qed
  ultimately show ?thesis by simp
qed

lemma is_check_point_configured:
  assumes "selfplay_init_num (options p) > 0 \<and> selfplay_update_num (options p) > 0"
  shows "is_check_point p \<longleftrightarrow>
           counter p = selfplay_init_num (options p) \<or>
           (\<exists>k. 0 < k \<and> counter p - selfplay_init_num (options p) =
                           k * selfplay_update_num (options p))"
proof -
  have e: "is_check_point p \<longleftrightarrow>
             counter p = selfplay_init_num (options p) \<or>
             (counter p > selfplay_init_num (options p) \<and>
              (counter p - selfplay_init_num (options p)) smod selfplay_update_num (options p) = 0)"
    unfolding is_check_point_def by (rule if_P [OF assms])
  show ?thesis
  proof (cases "counter p > selfplay_init_num (options p)")
    case True
    then have "0 < counter p - selfplay_init_num (options p)" by simp
    from smod_zero_iff [OF this, of "selfplay_update_num (options p)"] assms True
    show ?thesis unfolding e by simp
  next
    case False
    have "\<not> (\<exists>k. 0 < k \<and> counter p - selfplay_init_num (options p) =
                           k * selfplay_update_num (options p))"
    proof
      assume "\<exists>k. 0 < k \<and> counter p - selfplay_init_num (options p) =
                           k * selfplay_update_num (options p)"
      then obtain k where "0 < k"
        "counter p - selfplay_init_num (options p) = k * selfplay_update_num (options p)"
        by blast
      with assms have "0 < counter p - selfplay_init_num (options p)" by simp
      with False show False by simp
    qed
    with False show ?thesis unfolding e by blast
  qed
qed

lemma is_check_point_default:
  assumes "\<not> (selfplay_init_num (options p) > 0 \<and> selfplay_update_num (options p) > 0)"
  shows "is_check_point p \<longleftrightarrow> (\<exists>k. 0 < k \<and> counter p = k * 1000)"
proof -
  have e: "is_check_point p \<longleftrightarrow> counter p > 0 \<and> counter p smod 1000 = 0"
    unfolding is_check_point_def by (rule if_not_P [OF assms])
  show ?thesis
  proof (cases "counter p > 0")
    case True
    from smod_zero_iff [OF True, of 1000] True show ?thesis unfolding e by simp
  next
    case False
    have "\<not> (\<exists>k. 0 < k \<and> counter p = k * 1000)"
    proof
      assume "\<exists>k. 0 < k \<and> counter p = k * 1000"
      then obtain k where "0 < k" "counter p = k * 1000" by blast
      then have "0 < counter p" by simp
      with False show False by simp
    qed
    with False show ?thesis unfolding e by blast
  qed
qed

text \<open>
  C6, as the code has it. If both \<^verbatim>\<open>selfplay_init_num\<close> and \<^verbatim>\<open>selfplay_update_num\<close> are positive,
  \<^verbatim>\<open>is_check_point\<close> is true exactly when the episode counter equals the initial threshold or
  exceeds it by a positive multiple of the update increment. In every other configuration,
  also when only the initial threshold is positive, it is true exactly at the positive
  multiples of 1000.
\<close>

theorem is_check_point_schedule:
  "is_check_point p =
     (if selfplay_init_num (options p) > 0 \<and> selfplay_update_num (options p) > 0
      then counter p = selfplay_init_num (options p) \<or>
           (\<exists>k. 0 < k \<and> counter p - selfplay_init_num (options p) =
                           k * selfplay_update_num (options p))
      else \<exists>k. 0 < k \<and> counter p = k * 1000)"
proof (cases "selfplay_init_num (options p) > 0 \<and> selfplay_update_num (options p) > 0")
  case True
  from is_check_point_configured [OF True] show ?thesis
    by (simp only: if_P [OF True])
next
  case False
  from is_check_point_default [OF False] show ?thesis
    by (simp only: if_not_P [OF False])
qed

lemmas ctrl_eval = feed_def setCurrModel_def find_or_create_def find_or_null_def
  notifyCurrentWeightUpdate_def notifyWeightUpdate_def needWaitForMoreSample_def
  SelfPlayRecord_needWaitForMoreSample_def SelfPlayRecord_feed_def SelfPlayRecord_ctor_def
  checkAndSave_def is_check_point_def set_resign_threshold_def RecordBuffer_init_def
  RecordBuffer_feed_def saveCurrent_def clear_def SelfPlaySubCtrl_ctor_def ex_options_def
  ex_ctrl_def ex_record_def ex_fed_calc_def smod_int_alt_def

theorem is_check_point_schedule_witness:
  "is_check_point (ex_record 100 50 100 0) \<and> is_check_point (ex_record 100 50 150 0) \<and>
   \<not> is_check_point (ex_record 100 50 125 0) \<and> \<not> is_check_point (ex_record 100 50 50 0) \<and>
   is_check_point (ex_record 0 0 2000 0) \<and> \<not> is_check_point (ex_record 0 0 1500 0) \<and>
   \<not> is_check_point (ex_record 0 0 0 0)"
  using is_check_point_schedule [of "ex_record 100 50 150 0"]
    is_check_point_schedule [of "ex_record 0 0 2000 0"]
  by (simp add: ctrl_eval)

text \<open>The example of the claim: for \<open>initial = 100\<close> and \<open>update = 50\<close> the checkpoints are the
  counts 100, 150, 200 and so on.\<close>

lemma is_check_point_100_50:
  assumes "selfplay_init_num (options p) = 100" and "selfplay_update_num (options p) = 50"
  shows "is_check_point p \<longleftrightarrow> (\<exists>j. 0 \<le> j \<and> counter p = 100 + 50 * j)"
proof -
  have "is_check_point p \<longleftrightarrow>
          counter p = 100 \<or> (\<exists>k. 0 < k \<and> counter p - 100 = k * 50)"
    using is_check_point_configured [of p] assms by simp
  also have "\<dots> \<longleftrightarrow> (\<exists>j. 0 \<le> j \<and> counter p = 100 + 50 * j)"
  proof
    assume "counter p = 100 \<or> (\<exists>k. 0 < k \<and> counter p - 100 = k * 50)"
    then show "\<exists>j. 0 \<le> j \<and> counter p = 100 + 50 * j"
    proof
      assume "counter p = 100"
      then have "0 \<le> (0 :: int) \<and> counter p = 100 + 50 * 0" by simp
      then show ?thesis by blast
    next
      assume "\<exists>k. 0 < k \<and> counter p - 100 = k * 50"
      then obtain k where "0 < k" "counter p - 100 = k * 50" by blast
      then have "0 \<le> k \<and> counter p = 100 + 50 * k" by simp
      then show ?thesis by blast
    qed
  next
    assume "\<exists>j. 0 \<le> j \<and> counter p = 100 + 50 * j"
    then obtain j where j: "0 \<le> j" "counter p = 100 + 50 * j" by blast
    show "counter p = 100 \<or> (\<exists>k. 0 < k \<and> counter p - 100 = k * 50)"
    proof (cases "j = 0")
      case True
      with j show ?thesis by simp
    next
      case False
      with j have "0 < j \<and> counter p - 100 = j * 50" by simp
      then show ?thesis by blast
    qed
  qed
  finally show ?thesis .
qed

text \<open>
  C6 as stated fails when an initial threshold is configured without an update increment:
  with \<open>initial = 100\<close> and \<open>update = 0\<close> the counter 100 equals the initial threshold, and
  \<^verbatim>\<open>is_check_point\<close> is false there, since the code takes the branch of the default cadence.
\<close>

theorem is_check_point_schedule_counterexample:
  "selfplay_init_num (options (ex_record 100 0 100 0)) = 100 \<and>
   counter (ex_record 100 0 100 0) = selfplay_init_num (options (ex_record 100 0 100 0)) \<and>
   \<not> is_check_point (ex_record 100 0 100 0)"
  by (simp add: ctrl_eval)

lemma SelfPlayRecord_feed_sel [simp]:
  "options (SelfPlayRecord_feed rq rs r p) = options p"
  "num_weight_update (SelfPlayRecord_feed rq rs r p) = num_weight_update p"
  "resign_threshold (SelfPlayRecord_feed rq rs r p) = resign_threshold p"
  "ver (SelfPlayRecord_feed rq rs r p) = ver p"
  "counter (SelfPlayRecord_feed rq rs r p) = counter p + 1"
  by (simp_all add: SelfPlayRecord_feed_def Let_def)

lemma checkAndSave_sel [simp]:
  "options (snd (checkAndSave p)) = options p"
  "num_weight_update (snd (checkAndSave p)) = num_weight_update p"
  "resign_threshold (snd (checkAndSave p)) = resign_threshold p"
  "ver (snd (checkAndSave p)) = ver p"
  "counter (snd (checkAndSave p)) = counter p"
  "fst (checkAndSave p) = is_check_point p"
  by (simp_all add: checkAndSave_def)


text \<open>The example of the claim: with \<open>initial = 100\<close> and \<open>update = 50\<close> a record needs more
  samples below 100 episodes, then no more until a weight update, then again below 150.\<close>

lemma needWait_100_50:
  "SelfPlayRecord_needWaitForMoreSample (ex_record 100 50 cnt 0) \<longleftrightarrow> cnt < 100"
  "SelfPlayRecord_needWaitForMoreSample (ex_record 100 50 cnt 1) \<longleftrightarrow> cnt < 150"
  by (auto simp: ctrl_eval)

section \<open>The controller\<close>

lemma feed_cases:
  assumes "Calc_feed rq rs (resignThresholdCalculator c) = Inr k"
  shows "feed rq rs r c =
     (if \<not> is_selfplay rq then Inr (NOT_SELFPLAY, c\<lparr>resignThresholdCalculator := k\<rparr>)
      else if curr_ver c \<noteq> black_ver rq
           then Inr (VERSION_MISMATCH, c\<lparr>resignThresholdCalculator := k\<rparr>)
      else case perfs c (curr_ver c) of
             None \<Rightarrow> Inr (NOT_REQUESTED, c\<lparr>resignThresholdCalculator := k\<rparr>)
           | Some p \<Rightarrow>
               Inr (FEEDED,
                    c\<lparr>resignThresholdCalculator := k,
                      perfs := (perfs c)(curr_ver c \<mapsto>
                                  snd (checkAndSave (SelfPlayRecord_feed rq rs r p))),
                      total_selfplay := total_selfplay c + 1\<rparr>))"
  using assms by (auto simp: feed_def Let_def find_or_null_def split: option.splits)

lemma setCurrModel_cases:
  "setCurrModel v c =
     (if v = curr_ver c then Inr (False, c)
      else case perfs c v of
             Some p \<Rightarrow> Inr (True, c\<lparr>curr_ver := v\<rparr>)
           | None \<Rightarrow>
               (case updateThreshold (1 / 100) (resignThresholdCalculator c) of
                  Inl e \<Rightarrow> Inl e
                | Inr (t, k) \<Rightarrow>
                    Inr (True,
                         c\<lparr>curr_ver := v,
                           perfs := (perfs c)(v \<mapsto> (SelfPlayRecord_ctor v (ctrl_options c))
                                                     \<lparr>resign_threshold := t\<rparr>),
                           resignThresholdCalculator := k\<rparr>)))"
  by (auto simp: setCurrModel_def find_or_create_def set_resign_threshold_def
      split: option.splits sum.splits)

lemma updateThreshold_histSize:
  assumes "updateThreshold d k = Inr (t, k')"
  shows "histSize k' = histSize k \<and> curThreshold k' = t"
  using assms by (auto simp: updateThreshold_def Let_def split: if_splits)

text \<open>One call keeps the invariant, the options and every stored snapshot.\<close>

lemma ctrl_step_keeps:
  assumes "ctrl_step x c = Inr c'"
  shows "ctrl_options c' = ctrl_options c"
    and "ctrl_inv c \<Longrightarrow> ctrl_inv c'"
    and "perfs c v = Some p \<Longrightarrow>
           \<exists>p'. perfs c' v = Some p' \<and> resign_threshold p' = resign_threshold p"
proof -
  have "ctrl_options c' = ctrl_options c \<and> (ctrl_inv c \<longrightarrow> ctrl_inv c') \<and>
        (perfs c v = Some p \<longrightarrow>
           (\<exists>p'. perfs c' v = Some p' \<and> resign_threshold p' = resign_threshold p))"
  proof (cases x)
    case (Feed rq rs r)
    with assms obtain res where f: "feed rq rs r c = Inr (res, c')"
      by (auto split: sum.splits)
    then obtain k where k: "Calc_feed rq rs (resignThresholdCalculator c) = Inr k"
      by (auto simp: feed_def split: sum.splits)
    have hk: "0 < unat (histSize (resignThresholdCalculator c)) \<Longrightarrow> 0 < unat (histSize k)"
      using Calc_feed_spec [of "resignThresholdCalculator c" rq rs] k by auto
    from f show ?thesis unfolding feed_cases [OF k]
      using hk by (auto simp: ctrl_inv_def split: if_splits option.splits)
  next
    case (SetCurrModel u)
    with assms obtain b where s: "setCurrModel u c = Inr (b, c')"
      by (auto split: sum.splits)
    then show ?thesis unfolding setCurrModel_cases
      by (auto simp: ctrl_inv_def SelfPlayRecord_ctor_def dest: updateThreshold_histSize
          split: if_splits option.splits sum.splits)
  next
    case NotifyCurrentWeightUpdate
    with assms show ?thesis
      by (auto simp: notifyCurrentWeightUpdate_def find_or_null_def notifyWeightUpdate_def
          ctrl_inv_def split: option.splits if_splits)
  qed
  then show "ctrl_options c' = ctrl_options c"
    and "ctrl_inv c \<Longrightarrow> ctrl_inv c'"
    and "perfs c v = Some p \<Longrightarrow>
           \<exists>p'. perfs c' v = Some p' \<and> resign_threshold p' = resign_threshold p"
    by blast+
qed

lemma ctrl_run_keeps:
  assumes "ctrl_run xs c = Inr c'"
  shows "ctrl_options c' = ctrl_options c \<and> (ctrl_inv c \<longrightarrow> ctrl_inv c') \<and>
        (perfs c v = Some p \<longrightarrow>
           (\<exists>p'. perfs c' v = Some p' \<and> resign_threshold p' = resign_threshold p))"
  using assms
proof (induction xs arbitrary: c p)
  case Nil
  then show ?case by simp
next
  case (Cons x xs)
  from Cons.prems obtain c1 where c1: "ctrl_step x c = Inr c1" "ctrl_run xs c1 = Inr c'"
    by (auto split: sum.splits)
  from ctrl_step_keeps [OF c1(1)] Cons.IH [OF c1(2)] show ?case by metis
qed

lemma ctor_ctrl_inv:
  assumes "SelfPlaySubCtrl_ctor opts = Inr c"
  shows "ctrl_inv c \<and> ctrl_options c = opts"
  using assms
  by (auto simp: SelfPlaySubCtrl_ctor_def ResignThresholdCalculator_def ctrl_inv_def
      word_pos_unat split: sum.splits if_splits)

lemma reachable_inv:
  assumes "SelfPlaySubCtrl_ctor opts = Inr c0" and "ctrl_run xs c0 = Inr c"
  shows "ctrl_inv c \<and> ctrl_options c = opts"
  using ctor_ctrl_inv [OF assms(1)] ctrl_run_keeps [OF assms(2)] by simp

lemma ex_ctor: "SelfPlaySubCtrl_ctor (ex_options 2 1) = Inr (ex_ctrl 2 1)"
  by (simp add: ctrl_eval calc_eval)

lemma ex_run:
  "ctrl_run [SetCurrModel 0, Feed (ex_request (1 / 2)) (ex_result 1 False []) 7,
             Feed (ex_request (1 / 2)) (ex_result (- 1) False []) 8] (ex_ctrl 2 1) =
   Inr ex_ctrl_after"
  by (simp add: ctrl_eval calc_eval ex_ctrl_after_def)



text \<open>
  C8. For a controller after any sequence of calls, \<^verbatim>\<open>feed(request, result, record)\<close> returns
  a result code, never an error: the calculator is fed first, whatever the outcome; the code is
  \<^verbatim>\<open>NOT_SELFPLAY\<close> if the request is not tagged as self-play, else \<^verbatim>\<open>VERSION_MISMATCH\<close> if its
  version is not the active one, else \<^verbatim>\<open>NOT_REQUESTED\<close> if the active version has no record;
  in these three cases nothing but the calculator changes. Otherwise the result is fed to the
  record of the active version, its checkpoint check runs, the count of self-play games grows
  by 1, and the code is \<^verbatim>\<open>FEEDED\<close>.
\<close>

theorem feed_outcomes:
  assumes "SelfPlaySubCtrl_ctor opts = Inr c0" and "ctrl_run xs c0 = Inr c"
  shows "\<exists>k. Calc_feed rq rs (resignThresholdCalculator c) = Inr k \<and>
           feed rq rs r c =
             (if \<not> is_selfplay rq then Inr (NOT_SELFPLAY, c\<lparr>resignThresholdCalculator := k\<rparr>)
              else if curr_ver c \<noteq> black_ver rq
                   then Inr (VERSION_MISMATCH, c\<lparr>resignThresholdCalculator := k\<rparr>)
              else case perfs c (curr_ver c) of
                     None \<Rightarrow> Inr (NOT_REQUESTED, c\<lparr>resignThresholdCalculator := k\<rparr>)
                   | Some p \<Rightarrow>
                       Inr (FEEDED,
                            c\<lparr>resignThresholdCalculator := k,
                              perfs := (perfs c)(curr_ver c \<mapsto>
                                          snd (checkAndSave (SelfPlayRecord_feed rq rs r p))),
                              total_selfplay := total_selfplay c + 1\<rparr>))"
proof -
  from reachable_inv [OF assms] have "0 < unat (histSize (resignThresholdCalculator c))"
    by (simp add: ctrl_inv_def)
  from Calc_feed_spec [OF this, of rq rs] obtain k where
    k: "Calc_feed rq rs (resignThresholdCalculator c) = Inr k" by blast
  from feed_cases [OF k] k show ?thesis by blast
qed

theorem feed_outcomes_witness:
  "SelfPlaySubCtrl_ctor (ex_options 2 1) = Inr (ex_ctrl 2 1) \<and>
   ctrl_run [SetCurrModel 0, Feed (ex_request (1 / 2)) (ex_result 1 False []) 7,
             Feed (ex_request (1 / 2)) (ex_result (- 1) False []) 8] (ex_ctrl 2 1) =
     Inr ex_ctrl_after \<and>
   fst (projr (feed (ex_request (1 / 2)) (ex_result 1 False []) 9 ex_ctrl_after)) = FEEDED \<and>
   fst (projr (feed ((ex_request (1 / 2))\<lparr>black_ver := 3\<rparr>) (ex_result 1 False []) 9
                ex_ctrl_after)) = VERSION_MISMATCH \<and>
   fst (projr (feed ((ex_request (1 / 2))\<lparr>is_selfplay := False\<rparr>) (ex_result 1 False []) 9
                ex_ctrl_after)) = NOT_SELFPLAY \<and>
   fst (projr (feed ((ex_request (1 / 2))\<lparr>black_ver := - 1\<rparr>) (ex_result 1 False []) 9
                (ex_ctrl 2 1))) = NOT_REQUESTED"
proof -
  have e: "ctrl_run [] (ex_ctrl 2 1) = Inr (ex_ctrl 2 1)" by simp
  from feed_outcomes [OF ex_ctor ex_run, of "ex_request (1 / 2)" "ex_result 1 False []" 9]
    feed_outcomes [OF ex_ctor ex_run, of "(ex_request (1 / 2))\<lparr>black_ver := 3\<rparr>"
      "ex_result 1 False []" 9]
    feed_outcomes [OF ex_ctor ex_run, of "(ex_request (1 / 2))\<lparr>is_selfplay := False\<rparr>"
      "ex_result 1 False []" 9]
    feed_outcomes [OF ex_ctor e, of "(ex_request (1 / 2))\<lparr>black_ver := - 1\<rparr>"
      "ex_result 1 False []" 9]
    ex_ctor ex_run
  show ?thesis
    by (auto simp: ex_ctrl_after_def ex_ctrl_def ex_request_def)
qed

text \<open>
  C1, as the code has it. \<^verbatim>\<open>setCurrModel(v)\<close> returns false and changes nothing if \<open>v\<close> is the
  active version. Otherwise it makes \<open>v\<close> the active version and returns true; if \<open>v\<close> has no
  record yet it creates one, and the record's resign threshold is what the call
  \<^verbatim>\<open>updateThreshold()\<close> (with the default \<^verbatim>\<open>maxDelta = 0.01\<close>) returns at that moment, which is
  also the calculator's threshold after that call (if the assertion of \<^verbatim>\<open>updateThreshold\<close>
  fails, so does \<^verbatim>\<open>setCurrModel\<close>). Once a record exists, no sequence of calls changes its
  resign threshold.
\<close>

theorem setCurrModel_spec:
  "setCurrModel v c =
     (if v = curr_ver c then Inr (False, c)
      else case perfs c v of
             Some p \<Rightarrow> Inr (True, c\<lparr>curr_ver := v\<rparr>)
           | None \<Rightarrow>
               (case updateThreshold (1 / 100) (resignThresholdCalculator c) of
                  Inl e \<Rightarrow> Inl e
                | Inr (t, k) \<Rightarrow>
                    Inr (True,
                         c\<lparr>curr_ver := v,
                           perfs := (perfs c)(v \<mapsto> (SelfPlayRecord_ctor v (ctrl_options c))
                                                     \<lparr>resign_threshold := t\<rparr>),
                           resignThresholdCalculator := k\<rparr>))) \<and>
   (\<forall>t k. updateThreshold (1 / 100) (resignThresholdCalculator c) = Inr (t, k) \<longrightarrow>
          curThreshold k = t) \<and>
   (\<forall>u p xs c'. perfs c u = Some p \<longrightarrow> ctrl_run xs c = Inr c' \<longrightarrow>
      (\<exists>p'. perfs c' u = Some p' \<and> resign_threshold p' = resign_threshold p))"
  using setCurrModel_cases [of v c] updateThreshold_histSize ctrl_run_keeps by blast

theorem setCurrModel_spec_witness:
  "setCurrModel 0 ex_ctrl_after = Inr (False, ex_ctrl_after) \<and>
   setCurrModel 1 ex_ctrl_after =
     Inr (True,
          ex_ctrl_after
          \<lparr>curr_ver := 1,
           perfs := (perfs ex_ctrl_after)(1 \<mapsto> (SelfPlayRecord_ctor 1 (ex_options 2 1))
                                                  \<lparr>resign_threshold := 1 / 2\<rparr>)\<rparr>) \<and>
   (\<exists>c' p'. ctrl_run [SetCurrModel 1, Feed ((ex_request (3 / 4))\<lparr>black_ver := 1\<rparr>)
                                         (ex_result 1 True [0]) 9,
                       NotifyCurrentWeightUpdate, SetCurrModel 0] ex_ctrl_after = Inr c' \<and>
            perfs c' 0 = Some p' \<and> resign_threshold p' = 1 / 2)"
proof -
  let ?xs = "[SetCurrModel 1, Feed ((ex_request (3 / 4))\<lparr>black_ver := 1\<rparr>) (ex_result 1 True [0]) 9,
              NotifyCurrentWeightUpdate, SetCurrModel 0]"
  have "\<exists>c'. ctrl_run ?xs ex_ctrl_after = Inr c'"
    by (simp add: ctrl_eval calc_eval ex_ctrl_after_def)
  then obtain c' where c': "ctrl_run ?xs ex_ctrl_after = Inr c'" by blast
  let ?p = "(SelfPlayRecord_ctor 0 (ex_options 2 1))
              \<lparr>records := \<lparr>pending = [], saved = [[7, 8]]\<rparr>,
               black_win := 1, white_win := 1, n_black_resign := 1, n_white_resign := 1,
               move0_100 := 2, counter := 2, resign_threshold := 1 / 2\<rparr> :: nat SelfPlayRecord"
  have p: "perfs ex_ctrl_after 0 = Some ?p"
    by (simp add: ex_ctrl_after_def)
  have u: "updateThreshold (1 / 100) (resignThresholdCalculator ex_ctrl_after) =
             Inr (1 / 2, resignThresholdCalculator ex_ctrl_after)"
    by (simp add: ex_ctrl_after_def calc_eval)
  from setCurrModel_spec [of 0 ex_ctrl_after]
  have keep: "\<forall>u p xs c'. perfs ex_ctrl_after u = Some p \<longrightarrow>
                ctrl_run xs ex_ctrl_after = Inr c' \<longrightarrow>
                (\<exists>p'. perfs c' u = Some p' \<and> resign_threshold p' = resign_threshold p)"
    by blast
  from keep p c' obtain p' where "perfs c' 0 = Some p'"
    "resign_threshold p' = resign_threshold ?p"
    by blast
  then have "\<exists>p'. perfs c' 0 = Some p' \<and> resign_threshold p' = 1 / 2"
    by simp
  moreover from setCurrModel_spec [of 0 ex_ctrl_after]
  have "setCurrModel 0 ex_ctrl_after = Inr (False, ex_ctrl_after)"
    by (simp add: ex_ctrl_after_def)
  moreover from setCurrModel_spec [of 1 ex_ctrl_after] u
  have "setCurrModel 1 ex_ctrl_after =
     Inr (True,
          ex_ctrl_after
          \<lparr>curr_ver := 1,
           perfs := (perfs ex_ctrl_after)(1 \<mapsto> (SelfPlayRecord_ctor 1 (ex_options 2 1))
                                                  \<lparr>resign_threshold := 1 / 2\<rparr>)\<rparr>)"
    by (simp add: ex_ctrl_after_def ex_ctrl_def)
  ultimately show ?thesis using c' by blast
qed

text \<open>
  C1 as stated fails where it says that creating the record only reads the calculator's
  threshold: after five never-resign games whose winner's minimum value is \<open>65/128\<close>, the
  calculator's threshold is \<open>1/2\<close> before \<^verbatim>\<open>setCurrModel(0)\<close> and \<open>65/128\<close> after it, and the new
  record gets \<open>65/128\<close>.
\<close>

theorem setCurrModel_spec_counterexample:
  "ctrl_run [Feed (ex_request (1 / 2)) (ex_result (- 1) True [0, 63 / 128]) 1,
             Feed (ex_request (1 / 2)) (ex_result (- 1) True [0, 63 / 128]) 2,
             Feed (ex_request (1 / 2)) (ex_result (- 1) True [0, 63 / 128]) 3,
             Feed (ex_request (1 / 2)) (ex_result (- 1) True [0, 63 / 128]) 4,
             Feed (ex_request (1 / 2)) (ex_result (- 1) True [0, 63 / 128]) 5] (ex_ctrl 2 1) =
     Inr (ex_ctrl 2 1 \<lparr>resignThresholdCalculator := ex_fed_calc\<rparr>) \<and>
   getResignThreshold (ex_ctrl 2 1 \<lparr>resignThresholdCalculator := ex_fed_calc\<rparr>) = 1 / 2 \<and>
   setCurrModel 0 (ex_ctrl 2 1 \<lparr>resignThresholdCalculator := ex_fed_calc\<rparr>) =
     Inr (True,
          ex_ctrl 2 1
          \<lparr>curr_ver := 0,
           perfs := [0 \<mapsto> (SelfPlayRecord_ctor 0 (ex_options 2 1))
                              \<lparr>resign_threshold := 65 / 128\<rparr>],
           resignThresholdCalculator := ex_fed_calc\<lparr>curThreshold := 65 / 128\<rparr>\<rparr>) \<and>
   getResignThreshold
     (ex_ctrl 2 1
          \<lparr>curr_ver := 0,
           perfs := [0 \<mapsto> (SelfPlayRecord_ctor 0 (ex_options 2 1))
                              \<lparr>resign_threshold := 65 / 128\<rparr>],
           resignThresholdCalculator := ex_fed_calc\<lparr>curThreshold := 65 / 128\<rparr>\<rparr>) \<noteq> 1 / 2"
  by (simp add: ctrl_eval calc_eval getResignThreshold_def getThreshold_def)

section \<open>The batch slot\<close>

lemma fill_loop_spec:
  assumes "i < length smem"
  shows "fill_loop f ms smem (int i) =
           (if None \<in> set (decoded f ms (drop i smem)) then Inl ParseError
            else if length ms < length smem - i then Inl Blocked
            else Inr (take i smem @ map the (decoded f ms (drop i smem)),
                      int (length smem), drop (length smem - i) ms))"
  using assms
proof (induction ms arbitrary: smem i)
  case Nil
  then show ?case by (simp add: decoded_def)
next
  case (Cons m ms)
  have d: "drop i smem = smem ! i # drop (Suc i) smem"
    using Cons.prems by (simp add: Cons_nth_drop_Suc)
  have z: "decoded f (m # ms) (drop i smem) =
             f m (smem ! i) # decoded f ms (drop (Suc i) smem)"
    unfolding d by (simp add: decoded_def)
  show ?case
  proof (cases "f m (smem ! i)")
    case None
    with Cons.prems show ?thesis unfolding z by simp
  next
    case (Some x)
    let ?smem' = "smem[i := x]"
    show ?thesis
    proof (cases "Suc i < length smem")
      case True
      then have l: "Suc i < length ?smem'" by simp
      have t: "take (Suc i) ?smem' = take i smem @ [x]"
        using Cons.prems by (simp add: take_Suc_conv_app_nth)
      have k: "length smem - i = Suc (length smem - Suc i)" using True by simp
      have "fill_loop f (m # ms) smem (int i) = fill_loop f ms ?smem' (int i + 1)"
        using True Cons.prems Some by (simp add: Let_def)
      also have "int i + 1 = int (Suc i)" by simp
      also note Cons.IH [OF l]
      finally show ?thesis unfolding z k using t True Some by simp
    next
      case False
      with Cons.prems have e: "length smem = Suc i" by simp
      then have u: "?smem' = take i smem @ [x]"
        by (simp add: upd_conv_take_nth_drop)
      have "fill_loop f (m # ms) smem (int i) = Inr (?smem', int (Suc i), ms)"
        using e Some by (simp add: Let_def)
      then show ?thesis unfolding z using e u Some by (simp add: decoded_def)
    qed
  qed
qed

lemma length_decoded: "length (decoded f ms smem) = min (length ms) (length smem)"
  by (simp add: decoded_def)

lemma decoded_Nil_iff: "decoded f ms smem = [] \<longleftrightarrow> ms = [] \<or> smem = []"
  using length_decoded [of f ms smem] by (cases ms; cases smem) auto

text \<open>The constructor gives a slot with the cursor at 0, an empty queue, one position in the
  mode \<^verbatim>\<open>RECV_SMEM\<close> and \<open>batchSize\<close> positions in the mode \<^verbatim>\<open>RECV_ENTRY\<close>.\<close>

lemma SharedMemRemote_ctor_positions:
  "next_remote_smem (SharedMemRemote_ctor md smem cs b st lbl eff) = 0"
  "q (SharedMemRemote_ctor md smem cs b st lbl eff) = []"
  "length (remote_smem (SharedMemRemote_ctor RECV_SMEM smem cs b st lbl eff)) = 1"
  "length (remote_smem (SharedMemRemote_ctor RECV_ENTRY smem cs b st lbl eff)) = nat b"
  by (simp_all add: SharedMemRemote_ctor_def)

text \<open>
  C9. A slot with \<open>N \<ge> 1\<close> positions and the cursor at 0 (as the constructor leaves it, and
  as every completed cycle leaves it): \<^verbatim>\<open>waitBatchFillMem\<close> throws if one of the first \<open>N\<close>
  deliveries cannot be decoded; otherwise it returns exactly when the queue delivers at least
  \<open>N\<close> messages. When it returns it has consumed exactly the first \<open>N\<close> deliveries, the \<open>i\<close>-th
  applied to position \<open>i\<close> whatever the messages are, and the cursor is 0 again over the same
  \<open>N\<close> positions, so that the next cycle needs \<open>N\<close> deliveries again. With fewer than \<open>N\<close>
  deliveries the call never returns.
\<close>

theorem waitBatchFillMem_cycle:
  assumes "remote_smem s \<noteq> []" and "next_remote_smem s = 0"
  shows "waitBatchFillMem f s =
           (if None \<in> set (decoded f (q s) (remote_smem s)) then Inl ParseError
            else if length (q s) < length (remote_smem s) then Inl Blocked
            else Inr (s\<lparr>remote_smem := map the (decoded f (q s) (remote_smem s)),
                       q := drop (length (remote_smem s)) (q s),
                       stats_ptr := map_option (Stats_feed (label_idx s) (effective_batchsize s))
                                      (stats_ptr s),
                       next_remote_smem := 0\<rparr>)) \<and>
         (\<forall>s'. waitBatchFillMem f s = Inr s' \<longrightarrow>
            length (remote_smem s) \<le> length (q s) \<and>
            length (q s') = length (q s) - length (remote_smem s) \<and>
            length (remote_smem s') = length (remote_smem s) \<and>
            remote_smem s' \<noteq> [] \<and> next_remote_smem s' = 0)"
proof -
  from assms(1) have "0 < length (remote_smem s)" by simp
  from fill_loop_spec [OF this, of f "q s"] assms(2)
  have e: "waitBatchFillMem f s =
           (if None \<in> set (decoded f (q s) (remote_smem s)) then Inl ParseError
            else if length (q s) < length (remote_smem s) then Inl Blocked
            else Inr (s\<lparr>remote_smem := map the (decoded f (q s) (remote_smem s)),
                       q := drop (length (remote_smem s)) (q s),
                       stats_ptr := map_option (Stats_feed (label_idx s) (effective_batchsize s))
                                      (stats_ptr s),
                       next_remote_smem := 0\<rparr>))"
    by (simp add: waitBatchFillMem_def)
  from assms(1) show ?thesis unfolding e
    by (auto simp: length_decoded decoded_Nil_iff split: if_splits)
qed

theorem waitBatchFillMem_cycle_witness:
  "remote_smem (push 9 (push 5 (push 6 (push 7 ex_slot)))) \<noteq> [] \<and>
   next_remote_smem (push 9 (push 5 (push 6 (push 7 ex_slot)))) = 0 \<and>
   waitBatchFillMem (\<lambda>m d. Some m) (push 9 (push 5 (push 6 (push 7 ex_slot)))) =
     Inr (ex_slot\<lparr>remote_smem := [7, 6, 5], q := [9]\<rparr>) \<and>
   waitBatchFillMem (\<lambda>m d. Some m) (push 6 (push 7 ex_slot)) = Inl Blocked \<and>
   waitBatchFillMem (\<lambda>m d. if m = 6 then None else Some m) (push 5 (push 6 (push 7 ex_slot))) =
     Inl ParseError"
  using waitBatchFillMem_cycle [of "push 9 (push 5 (push 6 (push 7 ex_slot)))" "\<lambda>m d. Some m"]
    waitBatchFillMem_cycle [of "push 6 (push 7 ex_slot)" "\<lambda>m d. Some m"]
    waitBatchFillMem_cycle [of "push 5 (push 6 (push 7 ex_slot))"
      "\<lambda>m d. if m = 6 then None else Some m"]
  by (simp add: ex_slot_def SharedMemRemote_ctor_def push_def upto.simps decoded_def)

end
